theory Spec2Isabelle
  imports Main "HOL-Library.Word" "HOL-Library.AList" "HOL-Library.Code_Target_Nat"
begin

section \<open>Go values and the library functions that config.go calls\<close>

text \<open>
  A Go \<open>string\<close> is a sequence of bytes: the model uses \<^typ>\<open>string\<close>, whose characters
  are bytes, and reads a byte as a number with \<^term>\<open>byte_of\<close>.
  A Go slice or map that can be \<open>nil\<close> where the code tests for it is an \<open>option\<close>
  (\<open>None\<close> is \<open>nil\<close>); a pointer that can be \<open>nil\<close> is an \<open>option\<close> as well.
\<close>

type_synonym byte = "8 word"

definition byte_of :: "char \<Rightarrow> nat" where
  "byte_of c = of_char c"

subsection \<open>strconv.Itoa and strconv.Atoi\<close>

fun digits :: "nat \<Rightarrow> string" where
  "digits n = (if n < 10 then [''0123456789'' ! n]
               else digits (n div 10) @ [''0123456789'' ! (n mod 10)])"

declare digits.simps [simp del]

text \<open>\<open>strconv.Itoa\<close>: the decimal text of an integer, with a minus sign when negative.\<close>

definition Itoa :: "int \<Rightarrow> string" where
  "Itoa i = (if i < 0 then CHR ''-'' # digits (nat (- i)) else digits (nat i))"

definition isDigit :: "char \<Rightarrow> bool" where
  "isDigit c = (48 \<le> byte_of c \<and> byte_of c \<le> 57)"

datatype NumError = ErrSyntax | ErrRange

text \<open>
  The loop of \<open>strconv.ParseUint(s, 10, 64)\<close> over the bytes of \<open>s\<close>, with the value \<open>n\<close>
  read so far: a byte that is not a digit is a syntax error; a value that does not fit in
  64 bits is a range error (the source tests \<open>n >= cutoff\<close> before it multiplies and
  \<open>n1 < n\<close>, the wrap-around, after it adds; on unbounded integers the second test is
  \<open>n1 > maxUint64\<close>).
\<close>

fun ParseUint_loop :: "int \<Rightarrow> string \<Rightarrow> NumError + int" where
  "ParseUint_loop n [] = Inr n"
| "ParseUint_loop n (c # s) =
     (if \<not> isDigit c then Inl ErrSyntax
      else if n \<ge> (2 ^ 64 - 1) div 10 + 1 then Inl ErrRange
      else
        let n1 = n * 10 + (int (byte_of c) - 48)
        in if n1 > 2 ^ 64 - 1 then Inl ErrRange else ParseUint_loop n1 s)"

text \<open>
  \<open>strconv.Atoi\<close> with a 64-bit \<open>int\<close>: an optional sign \<open>+\<close> or \<open>-\<close>, then at least one
  decimal digit and nothing else (the base 10 is given, so no underscores); the value has
  to fit in a signed 64-bit integer. For a string of fewer than 19 bytes the source runs a
  loop of its own, which gives what \<open>ParseInt(s, 10, 0)\<close> gives; the model follows
  \<open>ParseInt\<close>.
\<close>

definition Atoi :: "string \<Rightarrow> NumError + int" where
  "Atoi s =
     (if s = [] then Inl ErrSyntax
      else
        let neg = (hd s = CHR ''-'');
            s1 = (if hd s = CHR ''-'' \<or> hd s = CHR ''+'' then tl s else s)
        in if s1 = [] then Inl ErrSyntax
           else
             (case ParseUint_loop 0 s1 of
                Inl ErrSyntax \<Rightarrow> Inl ErrSyntax
              | Inl ErrRange \<Rightarrow> Inl ErrRange
              | Inr un \<Rightarrow>
                  if \<not> neg \<and> un \<ge> 2 ^ 63 then Inl ErrRange
                  else if neg \<and> un > 2 ^ 63 then Inl ErrRange
                  else Inr (if neg then - un else un)))"

subsection \<open>net.SplitHostPort\<close>

text \<open>\<open>bytealg.IndexByteString\<close>: the index of the first byte equal to \<open>c\<close>, \<open>None\<close> for -1.\<close>

fun IndexByteString :: "string \<Rightarrow> char \<Rightarrow> nat option" where
  "IndexByteString [] c = None"
| "IndexByteString (x # xs) c =
     (if x = c then Some 0 else map_option Suc (IndexByteString xs c))"

text \<open>\<open>last\<close> of package net: the index of the last byte equal to \<open>c\<close>.\<close>

definition lastIndex :: "string \<Rightarrow> char \<Rightarrow> nat option" where
  "lastIndex s c = map_option (\<lambda>j. length s - 1 - j) (IndexByteString (rev s) c)"

datatype AddrErrorReason =
    MissingPort           \<comment> \<open>"missing port in address"\<close>
  | TooManyColons         \<comment> \<open>"too many colons in address"\<close>
  | MissingRBracket       \<comment> \<open>"missing ']' in address"\<close>
  | UnexpectedLBracket    \<comment> \<open>"unexpected '[' in address"\<close>
  | UnexpectedRBracket    \<comment> \<open>"unexpected ']' in address"\<close>

datatype AddrError = AddrError (Err: AddrErrorReason) (Addr: string)

text \<open>The end of \<open>SplitHostPort\<close>, after the host is known: \<open>j\<close> and \<open>k\<close> are the positions
  from which a \<open>[\<close> and a \<open>]\<close> are no longer allowed, \<open>i\<close> is the last colon.\<close>

definition SplitHostPort_tail :: "string \<Rightarrow> string \<Rightarrow> nat \<Rightarrow> nat \<Rightarrow> nat \<Rightarrow> AddrError + string \<times> string" where
  "SplitHostPort_tail hostport host i j k =
     (if IndexByteString (drop j hostport) CHR ''['' \<noteq> None
        then Inl (AddrError UnexpectedLBracket hostport)
      else if IndexByteString (drop k hostport) CHR '']'' \<noteq> None
        then Inl (AddrError UnexpectedRBracket hostport)
      else Inr (host, drop (i + 1) hostport))"

definition SplitHostPort :: "string \<Rightarrow> AddrError + string \<times> string" where
  "SplitHostPort hostport =
     (case lastIndex hostport CHR '':'' of
        None \<Rightarrow> Inl (AddrError MissingPort hostport)
      | Some i \<Rightarrow>
          if hd hostport = CHR ''[''
          then (case IndexByteString hostport CHR '']'' of
                  None \<Rightarrow> Inl (AddrError MissingRBracket hostport)
                | Some end \<Rightarrow>
                    if end + 1 = length hostport then Inl (AddrError MissingPort hostport)
                    else if end + 1 = i
                      then SplitHostPort_tail hostport (take (end - 1) (drop 1 hostport)) i 1 (end + 1)
                    else if hostport ! (end + 1) = CHR '':''
                      then Inl (AddrError TooManyColons hostport)
                    else Inl (AddrError MissingPort hostport))
          else
            let host = take i hostport
            in if IndexByteString host CHR '':'' \<noteq> None
               then Inl (AddrError TooManyColons hostport)
               else SplitHostPort_tail hostport host i 0 0)"

subsection \<open>net.ParseIP and IP.To4\<close>

text \<open>\<open>net.IP\<close> is a byte slice; the \<open>nil\<close> IP is the empty list (\<open>ParseIP\<close> and \<open>To4\<close>
  return \<open>nil\<close> or a slice of 16 or 4 bytes, never an empty slice that is not \<open>nil\<close>).\<close>

type_synonym IP = "byte list"

definition IPv4len :: nat where "IPv4len = 4"
definition IPv6len :: nat where "IPv6len = 16"

definition big :: nat where "big = 0xFFFFFF"

text \<open>\<open>dtoi\<close>: decimal to integer; returns number, characters consumed, success.\<close>

fun dtoi_loop :: "string \<Rightarrow> nat \<Rightarrow> nat \<Rightarrow> nat \<times> nat \<times> bool" where
  "dtoi_loop [] n i = (if i = 0 then (0, 0, False) else (n, i, True))"
| "dtoi_loop (c # s) n i =
     (if isDigit c
      then (let n' = n * 10 + (byte_of c - 48)
            in if n' \<ge> big then (big, i, False) else dtoi_loop s n' (i + 1))
      else (if i = 0 then (0, 0, False) else (n, i, True)))"

definition dtoi :: "string \<Rightarrow> nat \<times> nat \<times> bool" where
  "dtoi s = dtoi_loop s 0 0"

text \<open>The value of a hexadecimal digit, \<open>None\<close> for any other byte.\<close>

definition hexval :: "char \<Rightarrow> nat option" where
  "hexval c =
     (let b = byte_of c
      in if 48 \<le> b \<and> b \<le> 57 then Some (b - 48)
         else if 97 \<le> b \<and> b \<le> 102 then Some (b - 97 + 10)
         else if 65 \<le> b \<and> b \<le> 70 then Some (b - 65 + 10)
         else None)"

text \<open>\<open>xtoi\<close>: hexadecimal to integer; returns number, characters consumed, success.\<close>

fun xtoi_loop :: "string \<Rightarrow> nat \<Rightarrow> nat \<Rightarrow> nat \<times> nat \<times> bool" where
  "xtoi_loop [] n i = (if i = 0 then (0, i, False) else (n, i, True))"
| "xtoi_loop (c # s) n i =
     (case hexval c of
        None \<Rightarrow> (if i = 0 then (0, i, False) else (n, i, True))
      | Some d \<Rightarrow>
          (let n' = n * 16 + d
           in if n' \<ge> big then (0, i, False) else xtoi_loop s n' (i + 1)))"

definition xtoi :: "string \<Rightarrow> nat \<times> nat \<times> bool" where
  "xtoi s = xtoi_loop s 0 0"

definition v4InV6Prefix :: "byte list" where
  "v4InV6Prefix = [0, 0, 0, 0, 0, 0, 0, 0, 0, 0, 0xff, 0xff]"

text \<open>\<open>net.IPv4(a, b, c, d)\<close>: the 16-byte form of an IPv4 address.\<close>

definition IPv4 :: "byte \<Rightarrow> byte \<Rightarrow> byte \<Rightarrow> byte \<Rightarrow> IP" where
  "IPv4 a b c d = v4InV6Prefix @ [a, b, c, d]"

text \<open>
  The loop of \<open>parseIPv4\<close>, \<open>for i := 0; i < IPv4len; i++\<close>: the first argument counts the
  octets still to read, \<open>p\<close> holds the octets read so far (so \<open>i > 0\<close> is \<open>p \<noteq> []\<close>).
  A component above 255, or with more than one digit and a leading zero, is refused.
\<close>

fun parseIPv4_loop :: "nat \<Rightarrow> string \<Rightarrow> byte list \<Rightarrow> (byte list \<times> string) option" where
  "parseIPv4_loop 0 s p = Some (p, s)"
| "parseIPv4_loop (Suc m) s p =
     (if s = [] then None
      else if p \<noteq> [] \<and> hd s \<noteq> CHR ''.'' then None
      else
        let s1 = (if p \<noteq> [] then tl s else s) in
        case dtoi s1 of (n, c, ok) \<Rightarrow>
          if \<not> ok \<or> n > 0xFF then None
          else if c > 1 \<and> hd s1 = CHR ''0'' then None
          else parseIPv4_loop m (drop c s1) (p @ [of_nat n]))"

definition parseIPv4 :: "string \<Rightarrow> IP" where
  "parseIPv4 s =
     (case parseIPv4_loop IPv4len s [] of
        None \<Rightarrow> []
      | Some (p, rest) \<Rightarrow>
          if rest \<noteq> [] then [] else IPv4 (p ! 0) (p ! 1) (p ! 2) (p ! 3))"

text \<open>
  The end of \<open>parseIPv6\<close>: \<open>s\<close> is what is left of the input, \<open>i\<close> the number of bytes
  written to \<open>ip\<close>, \<open>ellipsis\<close> the position of \<open>::\<close>. The two copying loops of the source
  that expand the ellipsis move the bytes \<open>ip[ellipsis..i)\<close> to the end of the address and
  put zeros in their place.
\<close>

definition parseIPv6_finish :: "IP \<Rightarrow> nat \<Rightarrow> string \<Rightarrow> nat option \<Rightarrow> IP" where
  "parseIPv6_finish ip i s ellipsis =
     (if s \<noteq> [] then []
      else if i < IPv6len then
        (case ellipsis of
           None \<Rightarrow> []
         | Some e \<Rightarrow>
             take e ip @ replicate (IPv6len - i) 0 @ take (i - e) (drop e ip))
      else if ellipsis \<noteq> None then []
      else ip)"

text \<open>The loop of \<open>parseIPv6\<close>, \<open>for i < IPv6len\<close>, parsing hex numbers followed by colons.\<close>

function parseIPv6_loop :: "IP \<Rightarrow> nat \<Rightarrow> string \<Rightarrow> nat option \<Rightarrow> IP" where
  "parseIPv6_loop ip i s ellipsis =
     (if \<not> i < IPv6len then parseIPv6_finish ip i s ellipsis
      else
        case xtoi s of (n, c, ok) \<Rightarrow>
          if \<not> ok \<or> n > 0xFFFF then []
          else if c < length s \<and> s ! c = CHR ''.'' then
            (if ellipsis = None \<and> i \<noteq> IPv6len - IPv4len then []
             else if i + IPv4len > IPv6len then []
             else
               let ip4 = parseIPv4 s
               in if ip4 = [] then []
                  else parseIPv6_finish
                         (ip[i := ip4 ! 12, i + 1 := ip4 ! 13, i + 2 := ip4 ! 14, i + 3 := ip4 ! 15])
                         (i + IPv4len) [] ellipsis)
          else
            let ip1 = ip[i := of_nat (n div 256), i + 1 := of_nat n];
                i1 = i + 2;
                s1 = drop c s
            in if s1 = [] then parseIPv6_finish ip1 i1 s1 ellipsis
               else if hd s1 \<noteq> CHR '':'' \<or> length s1 = 1 then []
               else
                 let s2 = tl s1
                 in if hd s2 = CHR '':'' then
                      (if ellipsis \<noteq> None then []
                       else if tl s2 = [] then parseIPv6_finish ip1 i1 [] (Some i1)
                       else parseIPv6_loop ip1 i1 (tl s2) (Some i1))
                    else parseIPv6_loop ip1 i1 s2 ellipsis)"
  by pat_completeness auto
termination
  by (relation "measure (\<lambda>(ip, i, s, ellipsis). IPv6len - i)") (auto simp: IPv6len_def)

declare parseIPv6_loop.simps [simp del]

definition parseIPv6 :: "string \<Rightarrow> IP" where
  "parseIPv6 s =
     (let ip = replicate IPv6len (0 :: byte)
      in if length s \<ge> 2 \<and> s ! 0 = CHR '':'' \<and> s ! 1 = CHR '':''
         then (if drop 2 s = [] then ip else parseIPv6_loop ip 0 (drop 2 s) (Some 0))
         else parseIPv6_loop ip 0 s None)"

text \<open>\<open>net.ParseIP\<close>: the first \<open>.\<close> or \<open>:\<close> of the text decides which parser runs.\<close>

fun ParseIP_scan :: "string \<Rightarrow> string \<Rightarrow> IP" where
  "ParseIP_scan s [] = []"
| "ParseIP_scan s (c # cs) =
     (if c = CHR ''.'' then parseIPv4 s
      else if c = CHR '':'' then parseIPv6 s
      else ParseIP_scan s cs)"

definition ParseIP :: "string \<Rightarrow> IP" where
  "ParseIP s = ParseIP_scan s s"

text \<open>\<open>IP.To4\<close>: the 4-byte form of an IPv4 address, \<open>nil\<close> for anything else.\<close>

definition To4 :: "IP \<Rightarrow> IP" where
  "To4 ip =
     (if length ip = IPv4len then ip
      else if length ip = IPv6len \<and> list_all (\<lambda>b. b = 0) (take 10 ip)
              \<and> ip ! 10 = 0xff \<and> ip ! 11 = 0xff
        then take 4 (drop 12 ip)
      else [])"

subsection \<open>strings.Fields\<close>

definition RuneError :: nat where "RuneError = 0xFFFD"

text \<open>
  The table \<open>first\<close> of package utf8 with \<open>acceptRanges\<close>: for a leading byte of a
  multi-byte sequence, the length of the sequence and the range allowed for its second
  byte; \<open>None\<close> for an ASCII byte and for a byte that cannot start a sequence.
\<close>

definition first :: "nat \<Rightarrow> (nat \<times> nat \<times> nat) option" where
  "first b =
     (if 0xC2 \<le> b \<and> b \<le> 0xDF then Some (2, 0x80, 0xBF)
      else if b = 0xE0 then Some (3, 0xA0, 0xBF)
      else if 0xE1 \<le> b \<and> b \<le> 0xEC then Some (3, 0x80, 0xBF)
      else if b = 0xED then Some (3, 0x80, 0x9F)
      else if 0xEE \<le> b \<and> b \<le> 0xEF then Some (3, 0x80, 0xBF)
      else if b = 0xF0 then Some (4, 0x90, 0xBF)
      else if 0xF1 \<le> b \<and> b \<le> 0xF3 then Some (4, 0x80, 0xBF)
      else if b = 0xF4 then Some (4, 0x80, 0x8F)
      else None)"

text \<open>\<open>utf8.DecodeRuneInString\<close>: the first rune of \<open>s\<close> and its width in bytes; an
  invalid or incomplete sequence is \<open>RuneError\<close> of width 1.\<close>

definition DecodeRuneInString :: "string \<Rightarrow> nat \<times> nat" where
  "DecodeRuneInString s =
     (if s = [] then (RuneError, 0)
      else
        let s0 = byte_of (s ! 0) in
        case first s0 of
          None \<Rightarrow> (if s0 < 0x80 then (s0, 1) else (RuneError, 1))
        | Some (sz, lo, hi) \<Rightarrow>
            if length s < sz then (RuneError, 1)
            else
              let s1 = byte_of (s ! 1) in
              if s1 < lo \<or> hi < s1 then (RuneError, 1)
              else if sz \<le> 2 then ((s0 mod 32) * 64 + s1 mod 64, 2)
              else
                let s2 = byte_of (s ! 2) in
                if s2 < 0x80 \<or> 0xBF < s2 then (RuneError, 1)
                else if sz \<le> 3 then ((s0 mod 16) * 4096 + (s1 mod 64) * 64 + s2 mod 64, 3)
                else
                  let s3 = byte_of (s ! 3) in
                  if s3 < 0x80 \<or> 0xBF < s3 then (RuneError, 1)
                  else ((s0 mod 8) * 262144 + (s1 mod 64) * 4096 + (s2 mod 64) * 64
                          + s3 mod 64, 3 + 1))"

text \<open>\<open>for end, rune := range s\<close>: the runes of a string in order, each with its bytes.\<close>

function runes :: "string \<Rightarrow> (nat \<times> string) list" where
  "runes s =
     (if s = [] then []
      else case DecodeRuneInString s of
             (r, w) \<Rightarrow> (r, take w s) # runes (drop w s))"
  by pat_completeness auto
termination
  by (relation "measure length")
     (auto simp: DecodeRuneInString_def Let_def split: if_splits option.splits)

declare runes.simps [simp del]

text \<open>\<open>unicode.IsSpace\<close>: the Unicode property White Space.\<close>

definition IsSpace :: "nat \<Rightarrow> bool" where
  "IsSpace r =
     (if r \<le> 0xFF
      then r = 9 \<or> r = 10 \<or> r = 11 \<or> r = 12 \<or> r = 13 \<or> r = 32 \<or> r = 0x85 \<or> r = 0xA0
      else r = 0x1680 \<or> (0x2000 \<le> r \<and> r \<le> 0x200a) \<or> r = 0x2028 \<or> r = 0x2029
           \<or> r = 0x202f \<or> r = 0x205f \<or> r = 0x3000)"

text \<open>
  The loop of \<open>strings.FieldsFunc\<close> over the runes of the string. The source records the
  span \<open>start..end\<close> of each field; the model carries the bytes of the field that is open
  (\<open>None\<close> when \<open>start < 0\<close>) and the fields closed so far.
\<close>

fun FieldsFunc_loop :: "(nat \<Rightarrow> bool) \<Rightarrow> (nat \<times> string) list \<Rightarrow> string option \<Rightarrow> string list
    \<Rightarrow> string list" where
  "FieldsFunc_loop f [] start spans =
     (case start of None \<Rightarrow> spans | Some w \<Rightarrow> spans @ [w])"
| "FieldsFunc_loop f ((r, bs) # rest) start spans =
     (if f r
      then (case start of
              Some w \<Rightarrow> FieldsFunc_loop f rest None (spans @ [w])
            | None \<Rightarrow> FieldsFunc_loop f rest None spans)
      else (case start of
              None \<Rightarrow> FieldsFunc_loop f rest (Some bs) spans
            | Some w \<Rightarrow> FieldsFunc_loop f rest (Some (w @ bs)) spans))"

definition FieldsFunc :: "string \<Rightarrow> (nat \<Rightarrow> bool) \<Rightarrow> string list" where
  "FieldsFunc s f = FieldsFunc_loop f (runes s) None []"

text \<open>
  \<open>strings.Fields\<close> splits around each run of white space. For a string with a byte
  above 0x7F the source calls \<open>FieldsFunc(s, unicode.IsSpace)\<close>; for an ASCII string it
  runs a loop over the bytes that gives the same fields, since every ASCII byte is a rune
  of width 1.
\<close>

definition Fields :: "string \<Rightarrow> string list" where
  "Fields s = FieldsFunc s IsSpace"

subsection \<open>Untyped values and package cast\<close>

text \<open>
  A value of type \<open>interface{}\<close> as a YAML decoder produces it: \<open>nil\<close>, a bool, an int, a
  string, a list, a map with untyped keys (\<open>map[interface{}]interface{}\<close>) or a map with
  string keys (\<open>map[string]interface{}\<close>). A Go map is an association list with distinct
  keys.
\<close>

datatype iface =
    INil
  | IBool bool
  | IInt int
  | IString string
  | ISlice "iface list"
  | IMapI "(iface \<times> iface) list"
  | IMapS "(string \<times> iface) list"

text \<open>\<open>cast.ToString\<close>: a value that has no string form gives the empty string.\<close>

fun ToString :: "iface \<Rightarrow> string" where
  "ToString (IString s) = s"
| "ToString (IBool b) = (if b then ''true'' else ''false'')"
| "ToString (IInt i) = Itoa i"
| "ToString INil = []"
| "ToString (ISlice xs) = []"
| "ToString (IMapI kvs) = []"
| "ToString (IMapS kvs) = []"

text \<open>
  \<open>cast.ToStringMap\<close> of a string decodes it as JSON into an empty map. The JSON decoder
  is not modelled: it is the parameter \<open>js\<close>, which gives the map that
  \<open>json.Unmarshal\<close> leaves (\<open>None\<close> for a \<open>nil\<close> map).
\<close>

type_synonym json = "string \<Rightarrow> (string \<times> iface) list option"

text \<open>
  \<open>cast.ToStringMap\<close>: the result starts as an empty map that is not \<open>nil\<close>. A map with
  untyped keys is copied into it, each key through \<open>ToString\<close>; a map with string keys is
  returned as it is; a string is decoded as JSON; for every other value the conversion
  fails and the function returns the empty map (\<open>ToStringMap\<close> drops the error of
  \<open>ToStringMapE\<close>).
\<close>

fun ToStringMap :: "json \<Rightarrow> iface \<Rightarrow> (string \<times> iface) list option" where
  "ToStringMap js (IMapI kvs) =
     Some (foldl (\<lambda>m (k, val). AList.update (ToString k) val m) [] kvs)"
| "ToStringMap js (IMapS kvs) = Some kvs"
| "ToStringMap js (IString s) = js s"
| "ToStringMap js INil = Some []"
| "ToStringMap js (IBool b) = Some []"
| "ToStringMap js (IInt i) = Some []"
| "ToStringMap js (ISlice xs) = Some []"

text \<open>
  \<open>cast.ToSlice\<close>: the result starts as a \<open>nil\<close> slice, to which the elements of a list
  are appended, so an empty list gives \<open>nil\<close>, as does every value that is not a list.
\<close>

fun ToSlice :: "iface \<Rightarrow> iface list option" where
  "ToSlice (ISlice xs) = (if xs = [] then None else Some xs)"
| "ToSlice INil = None"
| "ToSlice (IBool b) = None"
| "ToSlice (IInt i) = None"
| "ToSlice (IString s) = None"
| "ToSlice (IMapI kvs) = None"
| "ToSlice (IMapS kvs) = None"

subsection \<open>The document store (viper)\<close>

text \<open>
  The loaded document is seen only through \<open>viper.Get\<close>, the value at a dotted path
  (\<open>nil\<close> when there is none), so a store is the function from paths to values.
\<close>

type_synonym viper = "string \<Rightarrow> iface"

definition Get :: "viper \<Rightarrow> string \<Rightarrow> iface" where
  "Get vp key = vp key"

text \<open>\<open>viper.GetString\<close> is \<open>cast.ToString\<close> of \<open>Get\<close>.\<close>

definition GetString :: "viper \<Rightarrow> string \<Rightarrow> string" where
  "GetString vp key = ToString (Get vp key)"

text \<open>The keys of a dotted path.\<close>

fun splitDots :: "string \<Rightarrow> string \<Rightarrow> string list" where
  "splitDots acc [] = [acc]"
| "splitDots acc (c # cs) =
     (if c = CHR ''.'' then acc # splitDots [] cs else splitDots (acc @ [c]) cs)"

text \<open>
  Modelled from the spec: the Document Accessor, "get value at dotted path", for a document
  given as nested maps: each key of the path selects an entry of the map reached so far.
\<close>

fun search :: "(string \<times> iface) list \<Rightarrow> string list \<Rightarrow> iface" where
  "search m [] = INil"
| "search m [k] = (case map_of m k of None \<Rightarrow> INil | Some x \<Rightarrow> x)"
| "search m (k # ks) =
     (case map_of m k of
        Some (IMapS m') \<Rightarrow> search m' ks
      | Some (IMapI kvs) \<Rightarrow>
          search (foldl (\<lambda>m (k, val). AList.update (ToString k) val m) [] kvs) ks
      | _ \<Rightarrow> INil)"

definition document :: "(string \<times> iface) list \<Rightarrow> viper" where
  "document m key = search m (splitDots [] key)"

section \<open>config.go\<close>

text \<open>
  The errors that \<open>Load\<close> returns. Each \<open>ConfigErrorFromString\<close> of the source is one
  constructor, which carries the arguments of the format string:
  \<^item> \<open>MissingListenDirective ver\<close>: "dhcpv%v: missing `server%d.listen` directive";
  \<^item> \<open>InvalidListenSyntax ver err\<close>: "dhcpv%d: %v", with the error of \<open>SplitHostPort\<close>;
  \<^item> \<open>AddressFamilyMismatch ver\<close>: "dhcpv%d: missing or invalid `listen` address";
  \<^item> \<open>InvalidPort ver\<close>: "dhcpv%d: invalid `listen` port";
  \<^item> \<open>InvalidPluginsSection\<close>: "dhcpv6: invalid plugins section, not a list";
  \<^item> \<open>InvalidPluginEntry idx\<close>: "dhcpv6: plugin #%d is not a string map";
  \<^item> \<open>MalformedPluginEntry\<close>: "dhcpv6: exactly one plugin per item can be specified";
  \<^item> \<open>NoProtocolConfigured\<close>: "need at least one valid config for DHCPv6 or DHCPv4".

  \<open>ReadInConfigError\<close> is the error of \<open>viper.ReadInConfig\<close>, which \<open>Load\<close> passes on.
\<close>

datatype error =
    ReadInConfigError
  | MissingListenDirective int
  | InvalidListenSyntax int AddrError
  | AddressFamilyMismatch int
  | InvalidPort int
  | InvalidPluginsSection
  | InvalidPluginEntry nat
  | MalformedPluginEntry
  | NoProtocolConfigured

record PluginConfig =
  Name :: string
  Args :: "string list"

record UDPAddr =
  IP :: IP
  Port :: int
  Zone :: string

text \<open>\<open>Plugins\<close> is a slice that can be \<open>nil\<close>: \<open>None\<close> is the \<open>nil\<close> slice.\<close>

record ServerConfig =
  Listener :: UDPAddr
  Plugins :: "PluginConfig list option"

text \<open>The field \<open>v\<close> of the source is \<open>vp\<close> here.\<close>

record Config =
  vp :: viper
  Server6 :: "ServerConfig option"
  Server4 :: "ServerConfig option"

text \<open>
  The loop of \<open>parsePlugins\<close>, \<open>for idx, val := range pluginList\<close>, with the plugins
  appended so far. The inner \<open>range conf\<close> reads the only entry of a map of length 1.
\<close>

fun parsePlugins_loop :: "json \<Rightarrow> nat \<Rightarrow> iface list \<Rightarrow> PluginConfig list
    \<Rightarrow> error + PluginConfig list option" where
  "parsePlugins_loop js idx [] plugins = Inr (Some plugins)"
| "parsePlugins_loop js idx (val # rest) plugins =
     (case ToStringMap js val of
        None \<Rightarrow> Inl (InvalidPluginEntry idx)
      | Some conf \<Rightarrow>
          if length conf \<noteq> 1 then Inl MalformedPluginEntry
          else
            let (name, args) = (case hd conf of (k, v) \<Rightarrow> (k, Fields (ToString v)))
            in parsePlugins_loop js (idx + 1) rest
                 (plugins @ [\<lparr>Name = name, Args = args\<rparr>]))"

text \<open>\<open>parsePlugins\<close> takes a slice and ranges over it, so a \<open>nil\<close> slice and an empty one
  are the same input: the list of the elements.\<close>

definition parsePlugins :: "json \<Rightarrow> iface list \<Rightarrow> error + PluginConfig list option" where
  "parsePlugins js pluginList = parsePlugins_loop js 0 pluginList []"

definition getListenAddress :: "Config \<Rightarrow> bool \<Rightarrow> error + UDPAddr option" where
  "getListenAddress c v6 =
     (let ver = (if \<not> v6 then 4 else 6) in
      if Get (vp c) (''server'' @ Itoa ver) = INil then Inr None
      else
        let addr = GetString (vp c) (''server'' @ Itoa ver @ ''.listen'') in
        if addr = [] then Inl (MissingListenDirective ver)
        else
          (case SplitHostPort addr of
             Inl err \<Rightarrow> Inl (InvalidListenSyntax ver err)
           | Inr (ipStr, portStr) \<Rightarrow>
               let ip = ParseIP ipStr in
               if v6 \<and> To4 ip \<noteq> [] then Inl (AddressFamilyMismatch ver)
               else if \<not> v6 \<and> To4 ip = [] then Inl (AddressFamilyMismatch ver)
               else
                 (case Atoi portStr of
                    Inl err \<Rightarrow> Inl (InvalidPort ver)
                  | Inr port \<Rightarrow> Inr (Some \<lparr>IP = ip, Port = port, Zone = []\<rparr>))))"

text \<open>The source does not use the parameter \<open>v6\<close>: the path is "server6.plugins".\<close>

definition getPlugins :: "json \<Rightarrow> Config \<Rightarrow> bool \<Rightarrow> error + PluginConfig list option" where
  "getPlugins js c v6 =
     (case ToSlice (Get (vp c) ''server6.plugins'') of
        None \<Rightarrow> Inl InvalidPluginsSection
      | Some pluginList \<Rightarrow>
          (case parsePlugins js pluginList of
             Inl err \<Rightarrow> Inl err
           | Inr plugins \<Rightarrow> Inr plugins))"

text \<open>\<open>parseConfig\<close> writes \<open>c.Server6\<close> or \<open>c.Server4\<close>: it returns the configuration
  as it is after the call. The log lines are left out.\<close>

definition parseConfig :: "json \<Rightarrow> Config \<Rightarrow> bool \<Rightarrow> error + Config" where
  "parseConfig js c v6 =
     (case getListenAddress c v6 of
        Inl err \<Rightarrow> Inl err
      | Inr None \<Rightarrow> Inr c
      | Inr (Some listenAddr) \<Rightarrow>
          (case getPlugins js c v6 of
             Inl err \<Rightarrow> Inl err
           | Inr plugins \<Rightarrow>
               let sc = \<lparr>Listener = listenAddr, Plugins = plugins\<rparr>
               in if v6 then Inr (c\<lparr>Server6 := Some sc\<rparr>)
                  else Inr (c\<lparr>Server4 := Some sc\<rparr>)))"

text \<open>\<open>New\<close> with the store that \<open>ReadInConfig\<close> has filled.\<close>

definition New :: "viper \<Rightarrow> Config" where
  "New doc = \<lparr>vp = doc, Server6 = None, Server4 = None\<rparr>"

text \<open>
  \<open>Load\<close>. Finding and decoding the file is the work of \<open>viper.ReadInConfig\<close>: its outcome
  is the argument \<open>file\<close>, an error or the store of the decoded document.
\<close>

definition Load :: "json \<Rightarrow> error + viper \<Rightarrow> error + Config" where
  "Load js file =
     (case file of
        Inl err \<Rightarrow> Inl err
      | Inr doc \<Rightarrow>
          (case parseConfig js (New doc) True of
             Inl err \<Rightarrow> Inl err
           | Inr c1 \<Rightarrow>
               (case parseConfig js c1 False of
                  Inl err \<Rightarrow> Inl err
                | Inr c2 \<Rightarrow>
                    if Server6 c2 = None \<and> Server4 c2 = None
                    then Inl NoProtocolConfigured
                    else Inr c2)))"

section \<open>Documents and predicates of the statements\<close>

text \<open>A JSON decoder for documents none of whose strings is JSON: decoding fails and
  leaves the empty map.\<close>

definition no_json :: json where
  "no_json s = Some []"

text \<open>A document with one section \<open>sec\<close> that holds only a \<open>listen\<close> directive.\<close>

definition listen_only :: "string \<Rightarrow> string \<Rightarrow> (string \<times> iface) list" where
  "listen_only sec addr = [(sec, IMapS [(''listen'', IString addr)])]"

text \<open>A document with one section \<open>sec\<close> that holds a \<open>listen\<close> directive and a
  \<open>plugins\<close> value.\<close>

definition section_doc :: "string \<Rightarrow> string \<Rightarrow> iface \<Rightarrow> (string \<times> iface) list" where
  "section_doc sec addr plugins =
     [(sec, IMapS [(''listen'', IString addr), (''plugins'', plugins)])]"

text \<open>
  A document with both sections, each with a plugin list of its own:
  \<^verbatim>\<open>
  server6:
    listen: '[::1]:547'
    plugins:
      - server_id: LL 00:de:ad
  server4:
    listen: '10.0.0.1:67'
    plugins:
      - lease_time: '3600'
  \<close>
\<close>

definition v4_plugin_list :: "iface list" where
  "v4_plugin_list = [IMapI [(IString ''lease_time'', IString ''3600'')]]"

definition v6_plugin_list :: "iface list" where
  "v6_plugin_list = [IMapI [(IString ''server_id'', IString ''LL 00:de:ad'')]]"

definition doc_two_families :: "(string \<times> iface) list" where
  "doc_two_families =
     section_doc ''server6'' ''[::1]:547'' (ISlice v6_plugin_list)
     @ section_doc ''server4'' ''10.0.0.1:67'' (ISlice v4_plugin_list)"

text \<open>A string has white space when one of its runes is a space.\<close>

definition hasSpace :: "string \<Rightarrow> bool" where
  "hasSpace t = list_ex (\<lambda>(r, bs). IsSpace r) (runes t)"

text \<open>The argument tokens of a plugin list are well formed: none is empty, none has
  white space.\<close>

definition tokens_ok :: "PluginConfig list \<Rightarrow> bool" where
  "tokens_ok ps = list_all (\<lambda>p. list_all (\<lambda>t. t \<noteq> [] \<and> \<not> hasSpace t) (Args p)) ps"

text \<open>An element of a plugin list is a valid entry when it converts to a map of exactly
  one key.\<close>

definition valid_entry :: "json \<Rightarrow> iface \<Rightarrow> bool" where
  "valid_entry js x = (case ToStringMap js x of Some [e] \<Rightarrow> True | _ \<Rightarrow> False)"

text \<open>The plugin that a valid entry stands for: its key, and the fields of its value.\<close>

definition plugin_of :: "json \<Rightarrow> iface \<Rightarrow> PluginConfig" where
  "plugin_of js x =
     (case ToStringMap js x of
        Some ((k, v) # rest) \<Rightarrow> \<lparr>Name = k, Args = Fields (ToString v)\<rparr>
      | _ \<Rightarrow> \<lparr>Name = [], Args = []\<rparr>)"

text \<open>The key of a family's section: \<open>fmt.Sprintf("server%d", ver)\<close>.\<close>

definition sect :: "bool \<Rightarrow> string" where
  "sect v6 = (if v6 then ''server6'' else ''server4'')"

text \<open>The plugins of a server configuration are well formed: the slice is not \<open>nil\<close> and
  its argument tokens are well formed.\<close>

definition plugins_ok :: "ServerConfig \<Rightarrow> bool" where
  "plugins_ok sc = (case Plugins sc of None \<Rightarrow> False | Some ps \<Rightarrow> tokens_ok ps)"

text \<open>
  A field of a string with runes \<open>R\<close>, for a separator test \<open>f\<close>: the bytes of a run of
  consecutive runes of \<open>R\<close>, not empty, none of which is a separator.
\<close>

definition field_of :: "(nat \<Rightarrow> bool) \<Rightarrow> (nat \<times> string) list \<Rightarrow> string \<Rightarrow> bool" where
  "field_of f R t \<longleftrightarrow> (\<exists>pre g post. R = pre @ g @ post \<and> g \<noteq> [] \<and> t = concat (map snd g)
      \<and> (\<forall>x\<in>set g. \<not> f (fst x)))"

section \<open>Lemmas\<close>

subsection \<open>Decoding runes\<close>

text \<open>A rune takes between one byte and all the bytes of the string, and cutting the string
  after the rune does not change how the rune decodes.\<close>

lemma first_size: "first b = Some (sz, lo, hi) \<Longrightarrow> sz = 2 \<or> sz = 3 \<or> sz = 4"
  by (auto simp: first_def split: if_splits)

lemma Decode_width:
  assumes "s \<noteq> []" "DecodeRuneInString s = (r, w)"
  shows "1 \<le> w \<and> w \<le> length s"
proof (cases "first (byte_of (s ! 0))")
  case None
  with assms show ?thesis
    by (cases s) (auto simp: DecodeRuneInString_def Let_def split: if_splits)
next
  case (Some t)
  obtain sz lo hi where t: "t = (sz, lo, hi)" by (cases t)
  from Some t have "sz = 2 \<or> sz = 3 \<or> sz = 4" by (auto dest: first_size)
  with assms Some t show ?thesis
    by (cases s) (auto simp: DecodeRuneInString_def Let_def Suc_le_eq split: if_splits)
qed

lemma Decode_take:
  assumes "s \<noteq> []" "DecodeRuneInString s = (r, w)" "w \<le> n"
  shows "DecodeRuneInString (take n s) = (r, w)"
proof -
  from assms have n: "1 \<le> n" using Decode_width by fastforce
  then have ne: "take n s \<noteq> []" using assms(1) by (cases s; cases n) auto
  have h0: "take n s ! 0 = s ! 0" using n by simp
  show ?thesis
  proof (cases "first (byte_of (s ! 0))")
    case None
    with assms ne h0 show ?thesis
      by (auto simp: DecodeRuneInString_def Let_def split: if_splits)
  next
    case (Some t)
    obtain sz lo hi where t: "t = (sz, lo, hi)" by (cases t)
    from Some t have sz: "sz = 2 \<or> sz = 3 \<or> sz = 4" by (auto dest: first_size)
    consider "n = 1" | "n = 2" | "n = 3" | "4 \<le> n" using n by linarith
    then show ?thesis
    proof cases
      case 1
      with assms Some t ne h0 sz show ?thesis
        by (auto simp: DecodeRuneInString_def Let_def split: if_splits)
    next
      case 2
      with assms Some t ne h0 sz show ?thesis
        by (auto simp: DecodeRuneInString_def Let_def split: if_splits)
    next
      case 3
      with assms Some t ne h0 sz show ?thesis
        by (auto simp: DecodeRuneInString_def Let_def split: if_splits)
    next
      case 4
      with assms Some t ne h0 sz show ?thesis
        by (auto simp: DecodeRuneInString_def Let_def split: if_splits)
    qed
  qed
qed

lemma runes_Nil [simp]: "runes [] = []"
  by (simp add: runes.simps)

lemma runes_Cons:
  "s \<noteq> [] \<Longrightarrow> DecodeRuneInString s = (r, w) \<Longrightarrow> runes s = (r, take w s) # runes (drop w s)"
  by (subst runes.simps) simp

lemma runes_eq_Cons:
  assumes "runes s = (r, bs) # cs"
  shows "s \<noteq> [] \<and> DecodeRuneInString s = (r, length bs) \<and> bs = take (length bs) s
         \<and> runes (drop (length bs) s) = cs \<and> s = bs @ drop (length bs) s"
proof -
  from assms have ne: "s \<noteq> []" by (cases s) auto
  obtain r' w where d: "DecodeRuneInString s = (r', w)" by (cases "DecodeRuneInString s")
  with ne have w: "1 \<le> w \<and> w \<le> length s" by (rule Decode_width)
  from runes_Cons [OF ne d] assms have "r' = r" "bs = take w s" "runes (drop w s) = cs" by auto
  with w d ne show ?thesis by auto
qed

lemma concat_runes: "concat (map snd (runes s)) = s"
proof (induction "runes s" arbitrary: s)
  case Nil
  then show ?case by (cases s) (auto simp: runes.simps split: prod.splits)
next
  case (Cons a cs)
  obtain r bs where a: "a = (r, bs)" by (cases a)
  from Cons(2) a have e: "runes s = (r, bs) # cs" by simp
  note f = runes_eq_Cons [OF e]
  from f have "cs = runes (drop (length bs) s)" by simp
  from Cons(1) [OF this] have "concat (map snd (runes (drop (length bs) s))) = drop (length bs) s" .
  with f e show ?case by (metis concat.simps(2) list.simps(9) snd_conv)
qed

text \<open>The runes of a string cut at rune boundaries are the runes of the whole string
  between these boundaries.\<close>

lemma runes_prefix: "runes s = cs1 @ cs2 \<Longrightarrow> runes (concat (map snd cs1)) = cs1"
proof (induction cs1 arbitrary: s)
  case Nil
  then show ?case by simp
next
  case (Cons a cs1)
  obtain r bs where a: "a = (r, bs)" by (cases a)
  from Cons.prems a have e: "runes s = (r, bs) # (cs1 @ cs2)" by simp
  note f = runes_eq_Cons [OF e]
  let ?t = "concat (map snd cs1)"
  from f have tl: "runes (drop (length bs) s) = cs1 @ cs2" by simp
  from Cons.IH [OF tl] have ih: "runes ?t = cs1" .
  from concat_runes [of "drop (length bs) s"] tl
  have "drop (length bs) s = ?t @ concat (map snd cs2)" by simp
  with f have s: "s = bs @ ?t @ concat (map snd cs2)" by metis
  then have tk: "take (length bs + length ?t) s = bs @ ?t"
    by (metis append.assoc append_eq_conv_conj length_append)
  from f have "DecodeRuneInString (take (length bs + length ?t) s) = (r, length bs)"
    by (intro Decode_take) auto
  with tk have d: "DecodeRuneInString (bs @ ?t) = (r, length bs)" by simp
  from f have "bs \<noteq> []" using Decode_width by fastforce
  then have "bs @ ?t \<noteq> []" by simp
  from runes_Cons [OF this d] ih show ?case using a by simp
qed

lemma runes_suffix: "runes s = cs1 @ cs2 \<Longrightarrow> runes (concat (map snd cs2)) = cs2"
proof (induction cs1 arbitrary: s)
  case Nil
  then show ?case using concat_runes [of s] by simp
next
  case (Cons a cs1)
  obtain r bs where a: "a = (r, bs)" by (cases a)
  from Cons.prems a have e: "runes s = (r, bs) # (cs1 @ cs2)" by simp
  from runes_eq_Cons [OF e] have "runes (drop (length bs) s) = cs1 @ cs2" by simp
  then show ?case by (rule Cons.IH)
qed

lemma runes_infix:
  assumes "runes s = pre @ g @ post"
  shows "runes (concat (map snd g)) = g"
proof -
  from runes_suffix [OF assms] have "runes (concat (map snd (g @ post))) = g @ post" .
  then show ?thesis by (rule runes_prefix)
qed

subsection \<open>The fields of a string\<close>

lemma FieldsFunc_loop_fields:
  assumes "R = pre @ g @ cs"
    and "start = None \<longrightarrow> g = []"
    and "\<forall>w. start = Some w \<longrightarrow> g \<noteq> [] \<and> w = concat (map snd g) \<and> (\<forall>x\<in>set g. \<not> f (fst x))"
    and "\<forall>t\<in>set spans. field_of f R t"
  shows "\<forall>t\<in>set (FieldsFunc_loop f cs start spans). field_of f R t"
  using assms
proof (induction cs arbitrary: pre g start spans)
  case Nil
  show ?case
  proof (cases start)
    case None
    with Nil show ?thesis by simp
  next
    case (Some w)
    with Nil have w: "g \<noteq> []" "w = concat (map snd g)" "\<forall>x\<in>set g. \<not> f (fst x)"
      by auto
    from Nil(1) have "R = pre @ g @ []" by simp
    with w have "field_of f R w"
      unfolding field_of_def by blast
    with Some Nil show ?thesis by simp
  qed
next
  case (Cons a cs)
  obtain r bs where a: "a = (r, bs)" by (cases a)
  show ?case
  proof (cases "f r")
    case True
    show ?thesis
    proof (cases start)
      case None
      with Cons.prems have g: "g = []" by simp
      have "\<forall>t\<in>set (FieldsFunc_loop f cs None spans). field_of f R t"
        by (rule Cons.IH [where pre = "pre @ [a]" and g = "[]"]) (use Cons.prems g in auto)
      with None True a show ?thesis by simp
    next
      case (Some w)
      with Cons.prems have w: "g \<noteq> []" "w = concat (map snd g)" "\<forall>x\<in>set g. \<not> f (fst x)"
        by auto
      with Cons.prems(1) have fw: "field_of f R w"
        unfolding field_of_def by blast
      have "\<forall>t\<in>set (FieldsFunc_loop f cs None (spans @ [w])). field_of f R t"
        by (rule Cons.IH [where pre = "pre @ g @ [a]" and g = "[]"]) (use Cons.prems fw in auto)
      with Some True a show ?thesis by simp
    qed
  next
    case False
    show ?thesis
    proof (cases start)
      case None
      with Cons.prems have g: "g = []" by simp
      have "\<forall>t\<in>set (FieldsFunc_loop f cs (Some bs) spans). field_of f R t"
        by (rule Cons.IH [where pre = pre and g = "[a]"]) (use Cons.prems g a False in auto)
      with None False a show ?thesis by simp
    next
      case (Some w)
      with Cons.prems have w: "g \<noteq> []" "w = concat (map snd g)" "\<forall>x\<in>set g. \<not> f (fst x)"
        by auto
      have "\<forall>t\<in>set (FieldsFunc_loop f cs (Some (w @ bs)) spans). field_of f R t"
        by (rule Cons.IH [where pre = pre and g = "g @ [a]"]) (use Cons.prems w a False in auto)
      with Some False a show ?thesis by simp
    qed
  qed
qed

text \<open>Every field that \<open>strings.Fields\<close> returns is not empty and has no white space.\<close>

lemma Fields_token:
  assumes "t \<in> set (Fields s)"
  shows "t \<noteq> [] \<and> \<not> hasSpace t"
proof -
  have "\<forall>t\<in>set (FieldsFunc_loop IsSpace (runes s) None []). field_of IsSpace (runes s) t"
    by (rule FieldsFunc_loop_fields [where pre = "[]" and g = "[]"]) auto
  with assms have "field_of IsSpace (runes s) t"
    by (simp add: Fields_def FieldsFunc_def)
  then obtain pre g post where g: "runes s = pre @ g @ post" "g \<noteq> []" "t = concat (map snd g)"
    "\<forall>x\<in>set g. \<not> IsSpace (fst x)"
    unfolding field_of_def by blast
  from runes_infix [OF g(1)] g(3) have rt: "runes t = g" by simp
  with g(2) have "t \<noteq> []" by auto
  moreover from rt g(4) have "\<not> hasSpace t"
    by (auto simp: hasSpace_def list_ex_iff)
  ultimately show ?thesis by simp
qed

subsection \<open>The plugin parser\<close>

lemma parsePlugins_loop_valid:
  "list_all (valid_entry js) l \<Longrightarrow>
   parsePlugins_loop js idx l acc = Inr (Some (acc @ map (plugin_of js) l))"
proof (induction l arbitrary: idx acc)
  case Nil
  then show ?case by simp
next
  case (Cons x l)
  from Cons.prems obtain k v where kv: "ToStringMap js x = Some [(k, v)]"
    by (auto simp: valid_entry_def split: option.splits list.splits)
  from Cons.prems have "list_all (valid_entry js) l" by simp
  from Cons.IH [OF this] kv show ?case
    by (simp add: plugin_of_def)
qed

lemma parsePlugins_valid:
  "list_all (valid_entry js) l \<Longrightarrow> parsePlugins js l = Inr (Some (map (plugin_of js) l))"
  unfolding parsePlugins_def by (simp add: parsePlugins_loop_valid)

lemma parsePlugins_loop_tokens:
  "parsePlugins_loop js idx l acc = Inr r \<Longrightarrow> tokens_ok acc \<Longrightarrow>
   \<exists>ps. r = Some ps \<and> tokens_ok ps"
proof (induction l arbitrary: idx acc)
  case Nil
  then show ?case by auto
next
  case (Cons x l)
  from Cons.prems(1) obtain conf where conf: "ToStringMap js x = Some conf" "length conf = 1"
    by (auto split: option.splits if_splits)
  then obtain k v where kv: "conf = [(k, v)]"
    by (cases conf) auto
  let ?p = "\<lparr>Name = k, Args = Fields (ToString v)\<rparr>"
  from Cons.prems(1) conf kv
  have run: "parsePlugins_loop js (idx + 1) l (acc @ [?p]) = Inr r" by simp
  have "tokens_ok (acc @ [?p])"
    using Cons.prems(2) Fields_token by (auto simp: tokens_ok_def list_all_iff)
  with run show ?case by (rule Cons.IH)
qed

lemma parsePlugins_tokens:
  "parsePlugins js l = Inr r \<Longrightarrow> \<exists>ps. r = Some ps \<and> tokens_ok ps"
  unfolding parsePlugins_def by (erule parsePlugins_loop_tokens) (simp add: tokens_ok_def)

lemma getPlugins_tokens:
  "getPlugins js c v6 = Inr r \<Longrightarrow> \<exists>ps. r = Some ps \<and> tokens_ok ps"
  by (auto simp: getPlugins_def split: option.splits sum.splits dest: parsePlugins_tokens)

text \<open>The error "plugin #idx is not a string map" needs \<open>ToStringMap\<close> to return \<open>nil\<close>,
  which it does only for a string that the JSON decoder turns into a \<open>nil\<close> map.\<close>

lemma ToStringMap_None:
  "ToStringMap js x = None \<Longrightarrow> \<exists>s. x = IString s \<and> js s = None"
  by (cases x) auto

lemma parsePlugins_loop_InvalidPluginEntry:
  "parsePlugins_loop js idx l acc = Inl (InvalidPluginEntry i) \<Longrightarrow>
   idx \<le> i \<and> i - idx < length l \<and> (\<exists>s. l ! (i - idx) = IString s \<and> js s = None)"
proof (induction l arbitrary: idx acc)
  case Nil
  then show ?case by simp
next
  case (Cons x l)
  show ?case
  proof (cases "ToStringMap js x")
    case None
    with Cons.prems have "i = idx" by simp
    with ToStringMap_None [OF None] show ?thesis by simp
  next
    case (Some conf)
    with Cons.prems have run:
      "parsePlugins_loop js (idx + 1) l
         (acc @ [\<lparr>Name = fst (hd conf), Args = Fields (ToString (snd (hd conf)))\<rparr>])
       = Inl (InvalidPluginEntry i)"
      by (auto split: if_splits prod.splits)
    from Cons.IH [OF run] obtain s where ih: "idx + 1 \<le> i" "i - (idx + 1) < length l"
      "l ! (i - (idx + 1)) = IString s" "js s = None"
      by auto
    from ih(1) have "i - idx = Suc (i - (idx + 1))" by simp
    with ih show ?thesis by auto
  qed
qed

lemma InvalidPluginEntry_only_for_json_null:
  "parsePlugins js l = Inl (InvalidPluginEntry i) \<Longrightarrow>
   i < length l \<and> (\<exists>s. l ! i = IString s \<and> js s = None)"
  unfolding parsePlugins_def by (drule parsePlugins_loop_InvalidPluginEntry) simp

subsection \<open>The listen address and the builder\<close>

lemma Itoa_6: "Itoa 6 = ''6''" by code_simp

lemma Itoa_4: "Itoa 4 = ''4''" by code_simp

lemma getListenAddress_absent:
  "Get (vp c) (sect v6) = INil \<Longrightarrow> getListenAddress c v6 = Inr None"
  by (cases v6) (simp_all add: getListenAddress_def sect_def Itoa_6 Itoa_4)

lemma getListenAddress_present:
  assumes "Get (vp c) (sect v6) \<noteq> INil"
    and "GetString (vp c) (sect v6 @ ''.listen'') = addr"
  shows "getListenAddress c v6 =
     (if addr = [] then Inl (MissingListenDirective (if v6 then 6 else 4))
      else (case SplitHostPort addr of
              Inl err \<Rightarrow> Inl (InvalidListenSyntax (if v6 then 6 else 4) err)
            | Inr (ipStr, portStr) \<Rightarrow>
                if v6 \<and> To4 (ParseIP ipStr) \<noteq> [] then Inl (AddressFamilyMismatch 6)
                else if \<not> v6 \<and> To4 (ParseIP ipStr) = [] then Inl (AddressFamilyMismatch 4)
                else (case Atoi portStr of
                        Inl err \<Rightarrow> Inl (InvalidPort (if v6 then 6 else 4))
                      | Inr port \<Rightarrow> Inr (Some \<lparr>IP = ParseIP ipStr, Port = port, Zone = []\<rparr>))))"
  using assms
  by (cases v6) (auto simp: getListenAddress_def sect_def Itoa_6 Itoa_4 Let_def split: sum.splits prod.splits)

lemma parseConfig_absent:
  "Get (vp c) (sect v6) = INil \<Longrightarrow> parseConfig js c v6 = Inr c"
  by (simp add: parseConfig_def getListenAddress_absent)

lemma parseConfig_cases:
  assumes "parseConfig js c v6 = Inr c'"
  shows "(getListenAddress c v6 = Inr None \<and> c' = c)
       \<or> (\<exists>a r. getListenAddress c v6 = Inr (Some a) \<and> getPlugins js c v6 = Inr r
            \<and> c' = (if v6 then c\<lparr>Server6 := Some \<lparr>Listener = a, Plugins = r\<rparr>\<rparr>
                     else c\<lparr>Server4 := Some \<lparr>Listener = a, Plugins = r\<rparr>\<rparr>))"
  using assms
  by (auto simp: parseConfig_def Let_def split: sum.splits option.splits if_splits)

subsection \<open>The library functions on the literals of the statements\<close>

lemma SplitHostPort_v6_bracketed:
  "SplitHostPort ''[2001:db8::1]:547'' = Inr (''2001:db8::1'', ''547'')" by code_simp

lemma SplitHostPort_v6_bare:
  "SplitHostPort ''2001:db8::1:547'' = Inl (AddrError TooManyColons ''2001:db8::1:547'')" by code_simp

lemma ParseIP_v6_example:
  "ParseIP ''2001:db8::1'' = [0x20, 0x01, 0x0d, 0xb8, 0, 0, 0, 0, 0, 0, 0, 0, 0, 0, 0, 1]" by code_simp

lemma To4_v6_example:
  "To4 [0x20, 0x01, 0x0d, 0xb8, 0, 0, 0, 0, 0, 0, 0, 0, 0, 0, 0, 1] = []" by code_simp

lemma Atoi_547: "Atoi ''547'' = Inr 547" by code_simp

lemma SplitHostPort_v4_example:
  "SplitHostPort ''10.0.0.1:67'' = Inr (''10.0.0.1'', ''67'')" by code_simp

lemma ParseIP_v4_example:
  "ParseIP ''10.0.0.1'' = [0, 0, 0, 0, 0, 0, 0, 0, 0, 0, 0xff, 0xff, 10, 0, 0, 1]" by code_simp

lemma To4_v4_example:
  "To4 [0, 0, 0, 0, 0, 0, 0, 0, 0, 0, 0xff, 0xff, 10, 0, 0, 1] = [10, 0, 0, 1]" by code_simp

lemma Atoi_67: "Atoi ''67'' = Inr 67" by code_simp

lemma SplitHostPort_bad_address:
  "SplitHostPort ''bad-address:99'' = Inr (''bad-address'', ''99'')" by code_simp

lemma ParseIP_bad_address: "ParseIP ''bad-address'' = []" by code_simp

lemma To4_nil: "To4 [] = []" by code_simp

lemma SplitHostPort_notaport:
  "SplitHostPort ''10.0.0.1:notaport'' = Inr (''10.0.0.1'', ''notaport'')" by code_simp

lemma Atoi_notaport: "Atoi ''notaport'' = Inl ErrSyntax" by code_simp

section \<open>Properties\<close>

subsection \<open>The plugin list of each family\<close>

text \<open>
  Claim C1. The builder should read each family's plugin list from that family's own
  section. The code does not: \<open>getPlugins\<close> reads "server6.plugins" whatever the family.
  On the document \<open>doc_two_families\<close> the v4 list parses to the plugin \<open>lease_time\<close>, yet
  \<open>Load\<close> gives \<open>Server4\<close> the plugin \<open>server_id\<close> of the v6 section.
\<close>

theorem C1_server4_gets_v6_plugins:
  "map_sum id (\<lambda>c. map_option Plugins (Server4 c)) (Load no_json (Inr (document doc_two_families)))
     = Inr (Some (Some [\<lparr>Name = ''server_id'', Args = [''LL'', ''00:de:ad'']\<rparr>]))
   \<and> parsePlugins no_json v4_plugin_list
       = Inr (Some [\<lparr>Name = ''lease_time'', Args = [''3600'']\<rparr>])"
  by code_simp

text \<open>
  Claim C2, as amended. When the listen address of the v6 section resolves and the value at
  "server6.plugins" is absent or is not a list, the v6 builder fails with
  \<open>InvalidPluginsSection\<close>.
\<close>

theorem C2_plugins_must_be_a_list:
  assumes "getListenAddress c True = Inr (Some a)"
    and "\<forall>xs. Get (vp c) ''server6.plugins'' \<noteq> ISlice xs"
  shows "parseConfig js c True = Inl InvalidPluginsSection"
proof -
  from assms(2) have "ToSlice (Get (vp c) ''server6.plugins'') = None"
    by (cases "Get (vp c) ''server6.plugins''") auto
  with assms(1) show ?thesis
    by (simp add: parseConfig_def getPlugins_def)
qed

text \<open>The theorem at a section whose \<open>plugins\<close> value is a string.\<close>

theorem C2_plugins_must_be_a_list_witness:
  "parseConfig no_json (New (document (section_doc ''server6'' ''[::1]:547'' (IString ''dns'')))) True
     = Inl InvalidPluginsSection"
proof -
  let ?c = "New (document (section_doc ''server6'' ''[::1]:547'' (IString ''dns'')))"
  have a: "getListenAddress ?c True
             = Inr (Some \<lparr>IP = [0, 0, 0, 0, 0, 0, 0, 0, 0, 0, 0, 0, 0, 0, 0, 1], Port = 547, Zone = []\<rparr>)"
    by code_simp
  have g: "Get (vp ?c) ''server6.plugins'' = IString ''dns''" by code_simp
  have b: "\<forall>xs. Get (vp ?c) ''server6.plugins'' \<noteq> ISlice xs"
    unfolding g by simp
  from C2_plugins_must_be_a_list [OF a b] show ?thesis .
qed

text \<open>
  Claim C2 as stated fails: for a v6 section with a valid listener and no \<open>plugins\<close>
  value the builder does not succeed with an empty list, it fails with
  \<open>InvalidPluginsSection\<close>.
\<close>

theorem C2_absent_plugins_rejected:
  "Get (document (listen_only ''server6'' ''[::1]:547'')) ''server6'' \<noteq> INil
   \<and> Get (document (listen_only ''server6'' ''[::1]:547'')) ''server6.plugins'' = INil
   \<and> getListenAddress (New (document (listen_only ''server6'' ''[::1]:547''))) True
       = Inr (Some \<lparr>IP = [0, 0, 0, 0, 0, 0, 0, 0, 0, 0, 0, 0, 0, 0, 0, 1], Port = 547, Zone = []\<rparr>)
   \<and> parseConfig no_json (New (document (listen_only ''server6'' ''[::1]:547''))) True
       = Inl InvalidPluginsSection"
proof -
  let ?c = "New (document (listen_only ''server6'' ''[::1]:547''))"
  have "case parseConfig no_json ?c True of
          Inl e \<Rightarrow> e = InvalidPluginsSection | Inr c' \<Rightarrow> False"
    by code_simp
  then have p: "parseConfig no_json ?c True = Inl InvalidPluginsSection"
    by (simp split: sum.splits)
  have "Get (document (listen_only ''server6'' ''[::1]:547'')) ''server6'' \<noteq> INil
        \<and> Get (document (listen_only ''server6'' ''[::1]:547'')) ''server6.plugins'' = INil
        \<and> getListenAddress ?c True
            = Inr (Some \<lparr>IP = [0, 0, 0, 0, 0, 0, 0, 0, 0, 0, 0, 0, 0, 0, 0, 1], Port = 547, Zone = []\<rparr>)"
    by code_simp
  with p show ?thesis by simp
qed

subsection \<open>The listen address\<close>

text \<open>
  Claim C3, as amended. The listen value "[2001:db8::1]:547", with the address in brackets,
  resolves under the v6 section to the IP 2001:db8::1 and the port 547, and fails under
  the v4 section with \<open>AddressFamilyMismatch\<close>; the value "2001:db8::1:547" of the claim
  has too many colons for \<open>SplitHostPort\<close> and fails under both sections with
  \<open>InvalidListenSyntax\<close>.
\<close>

theorem C3_bracketed_v6_literal:
  assumes "Get (vp c) (sect v6) \<noteq> INil"
    and "GetString (vp c) (sect v6 @ ''.listen'') = addr"
  shows "(addr = ''[2001:db8::1]:547'' \<longrightarrow>
            getListenAddress c v6 =
              (if v6
               then Inr (Some \<lparr>IP = [0x20, 0x01, 0x0d, 0xb8, 0, 0, 0, 0, 0, 0, 0, 0, 0, 0, 0, 1],
                                Port = 547, Zone = []\<rparr>)
               else Inl (AddressFamilyMismatch 4)))
       \<and> (addr = ''2001:db8::1:547'' \<longrightarrow>
            getListenAddress c v6 =
              Inl (InvalidListenSyntax (if v6 then 6 else 4)
                     (AddrError TooManyColons ''2001:db8::1:547'')))"
  unfolding getListenAddress_present [OF assms]
  by (simp add: SplitHostPort_v6_bracketed SplitHostPort_v6_bare ParseIP_v6_example
        To4_v6_example Atoi_547)

text \<open>The theorem at documents with one section and the bracketed value.\<close>

theorem C3_bracketed_v6_literal_witness:
  "getListenAddress (New (document (listen_only ''server6'' ''[2001:db8::1]:547''))) True
     = Inr (Some \<lparr>IP = [0x20, 0x01, 0x0d, 0xb8, 0, 0, 0, 0, 0, 0, 0, 0, 0, 0, 0, 1],
                   Port = 547, Zone = []\<rparr>)
   \<and> getListenAddress (New (document (listen_only ''server4'' ''[2001:db8::1]:547''))) False
     = Inl (AddressFamilyMismatch 4)"
proof -
  have a: "Get (vp (New (document (listen_only ''server6'' ''[2001:db8::1]:547'')))) (sect True) \<noteq> INil"
    by code_simp
  have b: "GetString (vp (New (document (listen_only ''server6'' ''[2001:db8::1]:547''))))
             (sect True @ ''.listen'') = ''[2001:db8::1]:547''"
    by code_simp
  have c: "Get (vp (New (document (listen_only ''server4'' ''[2001:db8::1]:547'')))) (sect False) \<noteq> INil"
    by code_simp
  have d: "GetString (vp (New (document (listen_only ''server4'' ''[2001:db8::1]:547''))))
             (sect False @ ''.listen'') = ''[2001:db8::1]:547''"
    by code_simp
  from C3_bracketed_v6_literal [OF a b] C3_bracketed_v6_literal [OF c d]
  show ?thesis by simp
qed

text \<open>Claim C3 as stated fails: "2001:db8::1:547" does not resolve under the v6 section,
  and under the v4 section the error is not \<open>AddressFamilyMismatch\<close>.\<close>

theorem C3_bare_v6_literal_is_malformed:
  "getListenAddress (New (document (listen_only ''server6'' ''2001:db8::1:547''))) True
     = Inl (InvalidListenSyntax 6 (AddrError TooManyColons ''2001:db8::1:547''))
   \<and> getListenAddress (New (document (listen_only ''server4'' ''2001:db8::1:547''))) False
     = Inl (InvalidListenSyntax 4 (AddrError TooManyColons ''2001:db8::1:547''))"
  by code_simp

text \<open>
  Claim C4, as amended. For a section with a listen value that is not empty: a value that
  \<open>SplitHostPort\<close> refuses fails with \<open>InvalidListenSyntax\<close>, which carries the error;
  under the v4 section a host that is not an IP literal fails with
  \<open>AddressFamilyMismatch\<close> ("missing or invalid `listen` address"), as "bad-address:99"
  does; a value that passes the family check and whose port \<open>Atoi\<close> refuses fails with
  \<open>InvalidPort\<close>, as "10.0.0.1:notaport" does under the v4 section.
\<close>

theorem C4_listen_errors:
  assumes "Get (vp c) (sect v6) \<noteq> INil"
    and "GetString (vp c) (sect v6 @ ''.listen'') = addr"
    and "addr \<noteq> []"
  shows "(\<forall>e. SplitHostPort addr = Inl e \<longrightarrow>
            getListenAddress c v6 = Inl (InvalidListenSyntax (if v6 then 6 else 4) e))
       \<and> (\<forall>h p. SplitHostPort addr = Inr (h, p) \<and> \<not> v6 \<and> ParseIP h = [] \<longrightarrow>
            getListenAddress c v6 = Inl (AddressFamilyMismatch 4))
       \<and> (\<forall>h p e. SplitHostPort addr = Inr (h, p) \<and> (v6 \<longleftrightarrow> To4 (ParseIP h) = [])
              \<and> Atoi p = Inl e \<longrightarrow>
            getListenAddress c v6 = Inl (InvalidPort (if v6 then 6 else 4)))
       \<and> (addr = ''bad-address:99'' \<and> \<not> v6 \<longrightarrow>
            getListenAddress c v6 = Inl (AddressFamilyMismatch 4))
       \<and> (addr = ''10.0.0.1:notaport'' \<and> \<not> v6 \<longrightarrow>
            getListenAddress c v6 = Inl (InvalidPort 4))"
  unfolding getListenAddress_present [OF assms(1,2)]
  using assms(3)
  by (auto simp: To4_nil SplitHostPort_bad_address ParseIP_bad_address SplitHostPort_notaport
        ParseIP_v4_example To4_v4_example Atoi_notaport)

text \<open>The theorem at three documents: a host that is no address, a port that is no number,
  a value without a colon.\<close>

theorem C4_listen_errors_witness:
  "getListenAddress (New (document (listen_only ''server4'' ''bad-address:99''))) False
     = Inl (AddressFamilyMismatch 4)
   \<and> getListenAddress (New (document (listen_only ''server4'' ''10.0.0.1:notaport''))) False
     = Inl (InvalidPort 4)
   \<and> getListenAddress (New (document (listen_only ''server6'' ''nocolon''))) True
     = Inl (InvalidListenSyntax 6 (AddrError MissingPort ''nocolon''))"
proof -
  let ?c1 = "New (document (listen_only ''server4'' ''bad-address:99''))"
  let ?c2 = "New (document (listen_only ''server4'' ''10.0.0.1:notaport''))"
  let ?c3 = "New (document (listen_only ''server6'' ''nocolon''))"
  have a1: "Get (vp ?c1) (sect False) \<noteq> INil" by code_simp
  have b1: "GetString (vp ?c1) (sect False @ ''.listen'') = ''bad-address:99''" by code_simp
  have a2: "Get (vp ?c2) (sect False) \<noteq> INil" by code_simp
  have b2: "GetString (vp ?c2) (sect False @ ''.listen'') = ''10.0.0.1:notaport''" by code_simp
  have a3: "Get (vp ?c3) (sect True) \<noteq> INil" by code_simp
  have b3: "GetString (vp ?c3) (sect True @ ''.listen'') = ''nocolon''" by code_simp
  have s3: "SplitHostPort ''nocolon'' = Inl (AddrError MissingPort ''nocolon'')" by code_simp
  from C4_listen_errors [OF a1 b1] C4_listen_errors [OF a2 b2] C4_listen_errors [OF a3 b3] s3
  show ?thesis by simp
qed

text \<open>
  Claim C4 as stated fails: "bad-address:99" under the v4 section fails with
  \<open>AddressFamilyMismatch\<close>, not \<open>InvalidListenSyntax\<close>, and under the v6 section it
  resolves, to the \<open>nil\<close> IP; the ports -1 and 70000 are outside the range of ports and
  resolve.
\<close>

theorem C4_bad_address_and_port_range:
  "getListenAddress (New (document (listen_only ''server4'' ''bad-address:99''))) False
     = Inl (AddressFamilyMismatch 4)
   \<and> getListenAddress (New (document (listen_only ''server6'' ''bad-address:99''))) True
     = Inr (Some \<lparr>IP = [], Port = 99, Zone = []\<rparr>)
   \<and> getListenAddress (New (document (listen_only ''server4'' ''10.0.0.1:-1''))) False
     = Inr (Some \<lparr>IP = [0, 0, 0, 0, 0, 0, 0, 0, 0, 0, 0xff, 0xff, 10, 0, 0, 1],
                   Port = - 1, Zone = []\<rparr>)
   \<and> getListenAddress (New (document (listen_only ''server4'' ''10.0.0.1:70000''))) False
     = Inr (Some \<lparr>IP = [0, 0, 0, 0, 0, 0, 0, 0, 0, 0, 0xff, 0xff, 10, 0, 0, 1],
                   Port = 70000, Zone = []\<rparr>)"
  by code_simp

text \<open>
  Claim C5. For a listen value whose host is an IP literal, the families have to agree:
  under the v6 section an address that has a 4-byte form fails with
  \<open>AddressFamilyMismatch\<close>, under the v4 section an address that has none fails with
  \<open>AddressFamilyMismatch\<close>, and an address that resolves is of the family of its section.
  "10.0.0.1:67" resolves under the v4 section and fails with \<open>AddressFamilyMismatch\<close>
  under the v6 section.
\<close>

theorem C5_family_consistency:
  assumes "Get (vp c) (sect v6) \<noteq> INil"
    and "GetString (vp c) (sect v6 @ ''.listen'') = addr"
    and "SplitHostPort addr = Inr (ipStr, portStr)"
    and "ParseIP ipStr \<noteq> []"
  shows "(v6 \<and> To4 (ParseIP ipStr) \<noteq> [] \<longrightarrow>
            getListenAddress c v6 = Inl (AddressFamilyMismatch 6))
       \<and> (\<not> v6 \<and> To4 (ParseIP ipStr) = [] \<longrightarrow>
            getListenAddress c v6 = Inl (AddressFamilyMismatch 4))
       \<and> (\<forall>a. getListenAddress c v6 = Inr (Some a) \<longrightarrow>
            IP a = ParseIP ipStr \<and> (v6 \<longleftrightarrow> To4 (IP a) = []))
       \<and> (addr = ''10.0.0.1:67'' \<longrightarrow>
            getListenAddress c v6 =
              (if v6 then Inl (AddressFamilyMismatch 6)
               else Inr (Some \<lparr>IP = [0, 0, 0, 0, 0, 0, 0, 0, 0, 0, 0xff, 0xff, 10, 0, 0, 1],
                                Port = 67, Zone = []\<rparr>)))"
proof -
  from assms(3) have ne: "addr \<noteq> []"
    by (auto simp: SplitHostPort_def lastIndex_def)
  show ?thesis
    unfolding getListenAddress_present [OF assms(1,2)]
    using assms(3,4) ne
    by (auto simp: SplitHostPort_v4_example ParseIP_v4_example To4_v4_example Atoi_67
          split: sum.splits)
qed

text \<open>The theorem at documents with one section and the value "10.0.0.1:67".\<close>

theorem C5_family_consistency_witness:
  "getListenAddress (New (document (listen_only ''server4'' ''10.0.0.1:67''))) False
     = Inr (Some \<lparr>IP = [0, 0, 0, 0, 0, 0, 0, 0, 0, 0, 0xff, 0xff, 10, 0, 0, 1],
                   Port = 67, Zone = []\<rparr>)
   \<and> getListenAddress (New (document (listen_only ''server6'' ''10.0.0.1:67''))) True
     = Inl (AddressFamilyMismatch 6)"
proof -
  let ?c4 = "New (document (listen_only ''server4'' ''10.0.0.1:67''))"
  let ?c6 = "New (document (listen_only ''server6'' ''10.0.0.1:67''))"
  have a4: "Get (vp ?c4) (sect False) \<noteq> INil" by code_simp
  have b4: "GetString (vp ?c4) (sect False @ ''.listen'') = ''10.0.0.1:67''" by code_simp
  have a6: "Get (vp ?c6) (sect True) \<noteq> INil" by code_simp
  have b6: "GetString (vp ?c6) (sect True @ ''.listen'') = ''10.0.0.1:67''" by code_simp
  have p: "ParseIP ''10.0.0.1'' \<noteq> []" by code_simp
  from C5_family_consistency [OF a4 b4 SplitHostPort_v4_example p]
       C5_family_consistency [OF a6 b6 SplitHostPort_v4_example p]
  show ?thesis by simp
qed

subsection \<open>The loader\<close>

text \<open>
  Claim C6. For a document that defines neither section, \<open>Load\<close> fails with
  \<open>NoProtocolConfigured\<close>; a configuration that \<open>Load\<close> returns has \<open>Server6\<close> or
  \<open>Server4\<close>.
\<close>

theorem C6_at_least_one_family:
  "(Get doc ''server6'' = INil \<and> Get doc ''server4'' = INil \<longrightarrow>
      Load js (Inr doc) = Inl NoProtocolConfigured)
   \<and> (Load js file = Inr c \<longrightarrow> Server6 c \<noteq> None \<or> Server4 c \<noteq> None)"
proof (intro conjI impI)
  assume h: "Get doc ''server6'' = INil \<and> Get doc ''server4'' = INil"
  then have "parseConfig js (New doc) True = Inr (New doc)"
    "parseConfig js (New doc) False = Inr (New doc)"
    by (auto intro!: parseConfig_absent simp: sect_def New_def)
  then show "Load js (Inr doc) = Inl NoProtocolConfigured"
    by (simp add: Load_def New_def)
next
  assume "Load js file = Inr c"
  then show "Server6 c \<noteq> None \<or> Server4 c \<noteq> None"
    by (auto simp: Load_def split: sum.splits if_splits)
qed

text \<open>The theorem at the empty document and at a document with both sections.\<close>

theorem C6_at_least_one_family_witness:
  "Load no_json (Inr (document [])) = Inl NoProtocolConfigured
   \<and> (\<exists>c. Load no_json (Inr (document doc_two_families)) = Inr c
          \<and> (Server6 c \<noteq> None \<or> Server4 c \<noteq> None))"
proof -
  have e: "Get (document []) ''server6'' = INil \<and> Get (document []) ''server4'' = INil"
    by code_simp
  have ok: "isl (Load no_json (Inr (document doc_two_families))) = False"
    by code_simp
  then obtain c where c: "Load no_json (Inr (document doc_two_families)) = Inr c"
    by (cases "Load no_json (Inr (document doc_two_families))") auto
  from C6_at_least_one_family [of "document []" no_json "Inr (document doc_two_families)" c] e c
  show ?thesis by blast
qed

text \<open>
  Claim C7, as amended. For a document with no v4 section whose v6 section has a listen
  address that resolves and, at "server6.plugins", a list that is not empty and whose
  elements are valid entries, \<open>Load\<close> returns a configuration with \<open>Server6\<close> set, from
  the listener and the plugins in order, and \<open>Server4\<close> \<open>nil\<close>. A section that is
  missing is never an error: the builder returns the configuration as it was.
\<close>

theorem C7_v6_only_document:
  "(Get doc ''server4'' = INil
      \<and> getListenAddress (New doc) True = Inr (Some a)
      \<and> ToSlice (Get doc ''server6.plugins'') = Some l
      \<and> list_all (valid_entry js) l \<longrightarrow>
    Load js (Inr doc)
      = Inr \<lparr>vp = doc,
             Server6 = Some \<lparr>Listener = a, Plugins = Some (map (plugin_of js) l)\<rparr>,
             Server4 = None\<rparr>)
   \<and> (Get (vp c) (sect v6) = INil \<longrightarrow> parseConfig js c v6 = Inr c)"
proof (intro conjI impI)
  assume h: "Get doc ''server4'' = INil
      \<and> getListenAddress (New doc) True = Inr (Some a)
      \<and> ToSlice (Get doc ''server6.plugins'') = Some l
      \<and> list_all (valid_entry js) l"
  let ?c1 = "\<lparr>vp = doc, Server6 = Some \<lparr>Listener = a, Plugins = Some (map (plugin_of js) l)\<rparr>,
               Server4 = None\<rparr>"
  from h have p6: "parseConfig js (New doc) True = Inr ?c1"
    by (simp add: parseConfig_def getPlugins_def parsePlugins_valid New_def)
  from h have "Get (vp ?c1) (sect False) = INil" by (simp add: sect_def)
  then have p4: "parseConfig js ?c1 False = Inr ?c1" by (rule parseConfig_absent)
  from p6 p4 show "Load js (Inr doc) = Inr ?c1"
    by (simp add: Load_def)
next
  assume "Get (vp c) (sect v6) = INil"
  then show "parseConfig js c v6 = Inr c" by (rule parseConfig_absent)
qed

text \<open>The theorem at a document with a v6 section only.\<close>

theorem C7_v6_only_document_witness:
  "Load no_json (Inr (document (section_doc ''server6'' ''[::1]:547'' (ISlice v6_plugin_list))))
     = Inr \<lparr>vp = document (section_doc ''server6'' ''[::1]:547'' (ISlice v6_plugin_list)),
            Server6 = Some \<lparr>Listener = \<lparr>IP = [0, 0, 0, 0, 0, 0, 0, 0, 0, 0, 0, 0, 0, 0, 0, 1],
                                          Port = 547, Zone = []\<rparr>,
                             Plugins = Some [\<lparr>Name = ''server_id'', Args = [''LL'', ''00:de:ad'']\<rparr>]\<rparr>,
            Server4 = None\<rparr>"
proof -
  let ?d = "document (section_doc ''server6'' ''[::1]:547'' (ISlice v6_plugin_list))"
  have a: "Get ?d ''server4'' = INil" by code_simp
  have b: "getListenAddress (New ?d) True
             = Inr (Some \<lparr>IP = [0, 0, 0, 0, 0, 0, 0, 0, 0, 0, 0, 0, 0, 0, 0, 1], Port = 547, Zone = []\<rparr>)"
    by code_simp
  have c: "ToSlice (Get ?d ''server6.plugins'') = Some v6_plugin_list" by code_simp
  have d: "list_all (valid_entry no_json) v6_plugin_list" by code_simp
  have e: "map (plugin_of no_json) v6_plugin_list
             = [\<lparr>Name = ''server_id'', Args = [''LL'', ''00:de:ad'']\<rparr>]" by code_simp
  from C7_v6_only_document [of ?d _ v6_plugin_list no_json] a b c d e
  show ?thesis by simp
qed

text \<open>Claim C7 as stated fails: for a document with only a v6 section, whose listener is
  valid and which has no \<open>plugins\<close> value, \<open>Load\<close> returns an error.\<close>

theorem C7_valid_listener_without_plugins:
  "Get (document (listen_only ''server6'' ''[::1]:547'')) ''server4'' = INil
   \<and> getListenAddress (New (document (listen_only ''server6'' ''[::1]:547''))) True
       = Inr (Some \<lparr>IP = [0, 0, 0, 0, 0, 0, 0, 0, 0, 0, 0, 0, 0, 0, 0, 1], Port = 547, Zone = []\<rparr>)
   \<and> Load no_json (Inr (document (listen_only ''server6'' ''[::1]:547'')))
       = Inl InvalidPluginsSection"
proof -
  let ?d = "document (listen_only ''server6'' ''[::1]:547'')"
  have "case Load no_json (Inr ?d) of
          Inl e \<Rightarrow> e = InvalidPluginsSection | Inr c \<Rightarrow> False"
    by code_simp
  then have p: "Load no_json (Inr ?d) = Inl InvalidPluginsSection"
    by (simp split: sum.splits)
  have "Get ?d ''server4'' = INil
        \<and> getListenAddress (New ?d) True
            = Inr (Some \<lparr>IP = [0, 0, 0, 0, 0, 0, 0, 0, 0, 0, 0, 0, 0, 0, 0, 1], Port = 547, Zone = []\<rparr>)"
    by code_simp
  with p show ?thesis by simp
qed

subsection \<open>The plugin parser\<close>

text \<open>
  Claim C8. An element that cannot be converted to a map should fail with
  \<open>InvalidPluginEntry\<close> and its index. The code tests \<open>conf == nil\<close> for this, but
  \<open>cast.ToStringMap\<close> returns an empty map when the conversion fails, so an integer, a
  list or a bool fails with \<open>MalformedPluginEntry\<close>, the error of an entry with no key.
\<close>

theorem C8_non_map_entry_is_malformed:
  "parsePlugins js [IInt 42] = Inl MalformedPluginEntry
   \<and> parsePlugins js [ISlice [IString ''dns'']] = Inl MalformedPluginEntry
   \<and> parsePlugins js [IMapS [(''dns'', IString ''8.8.8.8'')], IBool True] = Inl MalformedPluginEntry"
  by (simp add: parsePlugins_def)

text \<open>
  Claim C9. For a list of valid entries, \<open>parsePlugins\<close> returns one plugin for each
  entry, in the order of the list; the plugin of an entry has the key as its name and the
  fields of the value's string as its arguments; an empty value and a \<open>nil\<close> value give
  no argument; the entry \<open>{lease_time: "3600"}\<close> gives the name "lease_time" and the
  argument "3600".
\<close>

theorem C9_one_plugin_per_entry_in_order:
  "(list_all (valid_entry js) l \<longrightarrow> parsePlugins js l = Inr (Some (map (plugin_of js) l)))
   \<and> plugin_of js (IMapS [(k, v)]) = \<lparr>Name = k, Args = Fields (ToString v)\<rparr>
   \<and> plugin_of js (IMapI [(IString k, v)]) = \<lparr>Name = k, Args = Fields (ToString v)\<rparr>
   \<and> Fields (ToString (IString [])) = [] \<and> Fields (ToString INil) = []
   \<and> parsePlugins js [IMapS [(''lease_time'', IString ''3600'')]]
       = Inr (Some [\<lparr>Name = ''lease_time'', Args = [''3600'']\<rparr>])"
proof -
  have f: "Fields ''3600'' = [''3600'']" by code_simp
  have e: "Fields [] = []" by code_simp
  have g: "list_all (valid_entry js) l \<longrightarrow> parsePlugins js l = Inr (Some (map (plugin_of js) l))"
    by (simp add: parsePlugins_valid)
  have x: "parsePlugins js [IMapS [(''lease_time'', IString ''3600'')]]
       = Inr (Some [\<lparr>Name = ''lease_time'', Args = [''3600'']\<rparr>])"
    by (simp add: parsePlugins_def f)
  from g x show ?thesis
    by (simp add: plugin_of_def e)
qed

text \<open>The theorem at a list of two entries.\<close>

theorem C9_one_plugin_per_entry_in_order_witness:
  "parsePlugins no_json (v4_plugin_list @ v6_plugin_list)
     = Inr (Some [\<lparr>Name = ''lease_time'', Args = [''3600'']\<rparr>,
                  \<lparr>Name = ''server_id'', Args = [''LL'', ''00:de:ad'']\<rparr>])"
proof -
  have v: "list_all (valid_entry no_json) (v4_plugin_list @ v6_plugin_list)" by code_simp
  have m: "map (plugin_of no_json) (v4_plugin_list @ v6_plugin_list)
             = [\<lparr>Name = ''lease_time'', Args = [''3600'']\<rparr>,
                \<lparr>Name = ''server_id'', Args = [''LL'', ''00:de:ad'']\<rparr>]" by code_simp
  from C9_one_plugin_per_entry_in_order [of no_json "v4_plugin_list @ v6_plugin_list"] v m
  show ?thesis by simp
qed

text \<open>
  Claim C10. A server configuration that the builder produces, and so every server
  configuration of a configuration that \<open>Load\<close> returns, has a \<open>Plugins\<close> slice that is
  not \<open>nil\<close>, and every argument token of its plugins is not empty and has no white
  space.
\<close>

theorem C10_plugins_non_nil_tokens_clean:
  "(parseConfig js c v6 = Inr c' \<and> getListenAddress c v6 \<noteq> Inr None \<longrightarrow>
      (case (if v6 then Server6 c' else Server4 c') of
         None \<Rightarrow> False | Some sc \<Rightarrow> plugins_ok sc))
   \<and> (Load js file = Inr d \<longrightarrow>
      (case Server6 d of None \<Rightarrow> True | Some sc \<Rightarrow> plugins_ok sc)
      \<and> (case Server4 d of None \<Rightarrow> True | Some sc \<Rightarrow> plugins_ok sc))"
proof -
  have one: "case (if v6 then Server6 c' else Server4 c') of
               None \<Rightarrow> False | Some sc \<Rightarrow> plugins_ok sc"
    if h: "parseConfig js c v6 = Inr c'" "getListenAddress c v6 \<noteq> Inr None"
  proof -
    from parseConfig_cases [OF h(1)] h(2) obtain a r where
      ar: "getPlugins js c v6 = Inr r"
        "c' = (if v6 then c\<lparr>Server6 := Some \<lparr>Listener = a, Plugins = r\<rparr>\<rparr>
               else c\<lparr>Server4 := Some \<lparr>Listener = a, Plugins = r\<rparr>\<rparr>)"
      by auto
    from getPlugins_tokens [OF ar(1)] ar(2) show ?thesis
      by (auto simp: plugins_ok_def)
  qed
  have both: "(case Server6 d of None \<Rightarrow> True | Some sc \<Rightarrow> plugins_ok sc)
      \<and> (case Server4 d of None \<Rightarrow> True | Some sc \<Rightarrow> plugins_ok sc)"
    if h: "Load js file = Inr d"
  proof -
    from h obtain doc c1 where l: "file = Inr doc" "parseConfig js (New doc) True = Inr c1"
      "parseConfig js c1 False = Inr d"
      by (auto simp: Load_def split: sum.splits if_splits)
    have s6: "case Server6 c1 of None \<Rightarrow> True | Some sc \<Rightarrow> plugins_ok sc"
      and s4: "Server4 c1 = None"
      using parseConfig_cases [OF l(2)]
      by (auto simp: New_def plugins_ok_def dest: getPlugins_tokens)
    from parseConfig_cases [OF l(3)] s6 s4 show ?thesis
      by (auto simp: plugins_ok_def dest: getPlugins_tokens)
  qed
  from one both show ?thesis by blast
qed

text \<open>The theorem at a document with both sections.\<close>

theorem C10_plugins_non_nil_tokens_clean_witness:
  "\<exists>d sc6 sc4. Load no_json (Inr (document doc_two_families)) = Inr d
     \<and> Server6 d = Some sc6 \<and> Server4 d = Some sc4 \<and> plugins_ok sc6 \<and> plugins_ok sc4"
proof -
  have ok: "case Load no_json (Inr (document doc_two_families)) of
              Inl e \<Rightarrow> False | Inr d \<Rightarrow> Server6 d \<noteq> None \<and> Server4 d \<noteq> None"
    by code_simp
  then obtain d where d: "Load no_json (Inr (document doc_two_families)) = Inr d"
    "Server6 d \<noteq> None" "Server4 d \<noteq> None"
    by (auto split: sum.splits)
  then obtain sc6 sc4 where s: "Server6 d = Some sc6" "Server4 d = Some sc4" by auto
  from C10_plugins_non_nil_tokens_clean [of no_json _ _ _ "Inr (document doc_two_families)" d] d(1) s
  show ?thesis by auto
qed

end
